theory Spec2Isabelle
  imports Complex_Main "HOL-Library.Word"
begin

section \<open>The beat detector of \<^verbatim>\<open>beat_detector.cpp\<close>\<close>

text \<open>
  The class \<^verbatim>\<open>EnhancedBeatDetector\<close> is embedded as a record of its data members and
  its member functions as functions that take the record and return the updated one.

  Conventions of the embedding.
  \<^item> A \<^verbatim>\<open>float\<close> is modelled by the real number it denotes. The rounding of
    single-precision sums, products, quotients and roots, NaN and the infinities are not
    modelled; comparisons and copies of values are exact in both.
  \<^item> A literal that the code compares with, or that bounds a result, is the exact value
    of its single-precision constant: \<^verbatim>\<open>0.01f\<close> is \<open>5368709 / 2^29\<close>, a little below
    0.01; \<^verbatim>\<open>0.15f\<close> is \<open>5033165 / 2^25\<close> and \<^verbatim>\<open>0.3f\<close> is \<open>5033165 / 2^24\<close>, a little
    above 0.15 and 0.30; 0.5, 5, 60, 200 and 999 are exact. The two weights of the tempo
    smoothing, \<^verbatim>\<open>0.7f\<close> and \<^verbatim>\<open>0.3f\<close>, enter a rounded sum of rounded products only
    and are taken at their decimal values, with that rounding.
  \<^item> The counters of type \<^verbatim>\<open>uint64_t\<close> are \<open>64 word\<close>, so \<open>+ 1\<close> wraps as in C++.
    \<^verbatim>\<open>buf_size_\<close> and \<^verbatim>\<open>accumulated_samples_\<close> are \<open>nat\<close>: the latter is reset
    before it can pass the former, which is a \<^verbatim>\<open>uint32_t\<close>.
  \<^item> The aubio objects (tempo, onset, pitch) are external and stateful. They are a
    parameter of the model: a function from the history of calls made so far (each call
    being the onset threshold in force and the frame handed over) to what aubio reports
    after the last of them.
  \<^item> Console and log output is a list of events that carry the numbers printed; the
    formatting of the text, wall-clock timestamps and the timing statistics
    (\<^verbatim>\<open>process_times_\<close>) are left out.
  \<^item> Two history variables record what the code does but does not store:
    \<open>frames_done\<close>, the frames copied into \<^verbatim>\<open>input_buffer_\<close> (line 429), and
    \<open>engine_log\<close>, the calls made to aubio (lines 454 to 468).
\<close>

subsection \<open>Constants\<close>

text \<open>\<^verbatim>\<open>SILENCE_THRESHOLD = 0.01f\<close>: the single-precision number nearest to 0.01.\<close>

definition SILENCE_THRESHOLD :: real where "SILENCE_THRESHOLD = 5368709 / 536870912"

definition BPM_MIN :: real where "BPM_MIN = 60"
definition BPM_MAX :: real where "BPM_MAX = 200"
definition CONFIDENCE_THRESHOLD :: real where "CONFIDENCE_THRESHOLD = 1 / 2"
definition BPM_VARIANCE_LIMIT :: real where "BPM_VARIANCE_LIMIT = 5"
definition BPM_HISTORY_SIZE :: nat where "BPM_HISTORY_SIZE = 20"
definition STABILITY_WINDOW :: nat where "STABILITY_WINDOW = 5"

subsection \<open>The analysis engine (aubio) as a parameter\<close>

record engine_call =
  ec_threshold :: real
  ec_frame :: "real list"

text \<open>
  What the code reads back after \<^verbatim>\<open>aubio_tempo_do\<close>, \<^verbatim>\<open>aubio_onset_do\<close> and
  \<^verbatim>\<open>aubio_pitch_do\<close>: the tempo, its confidence, \<^verbatim>\<open>output_buffer_->data[0]\<close>
  and \<^verbatim>\<open>pitch_buffer_->data[0]\<close>.
\<close>

record analysis_result =
  ar_bpm :: real
  ar_confidence :: real
  ar_onset_out :: real
  ar_pitch :: real

type_synonym engine = "engine_call list \<Rightarrow> analysis_result"

subsection \<open>Output events\<close>

datatype event =
    Silence_msg "64 word" real
  | Debug_msg "64 word" real real real bool
  | Beat_visual real real real
  | Beat_console real real bool
  | Log_line real real real real real

text \<open>
  \<open>Silence_msg frame amp\<close> is the line of lines 445 to 446, \<open>Debug_msg frame amp bpm conf beat\<close>
  that of lines 483 to 487, \<open>Beat_visual bpm conf avg\<close> the string of
  \<^verbatim>\<open>generate_beat_visual\<close>, \<open>Beat_console bpm conf stable\<close> the line of lines 512 to 518
  and \<open>Log_line bpm conf pitch amp variance\<close> the line written to the log file.
\<close>

subsection \<open>The detector state\<close>

record detector =
  buf_size :: nat
  enable_logging :: bool
  log_is_open :: bool
  enable_performance_stats :: bool
  enable_pitch_detection :: bool
  enable_visual_feedback :: bool
  should_quit :: bool
  total_beats :: "64 word"
  total_onsets :: "64 word"
  recent_bpms :: "real list"
  bpm_stability :: "real list"
  smoothed_bpm :: real
  sample_accumulator :: "real list"
  accumulated_samples :: nat
  frame_count :: "64 word"
  out_events :: "event list"
  frames_done :: "real list list"
  engine_log :: "engine_call list"

text \<open>
  The constructor (lines 97 to 132): the counters are zero, the histories empty, the
  accumulator has \<open>buf_size\<close> zero-initialised cells. \<open>lopen\<close> says whether the log file
  could be opened.
\<close>

definition new_detector :: "nat \<Rightarrow> bool \<Rightarrow> bool \<Rightarrow> bool \<Rightarrow> bool \<Rightarrow> bool \<Rightarrow> detector" where
  "new_detector n logging stats pitch visual lopen =
     \<lparr> buf_size = n,
       enable_logging = logging,
       log_is_open = (logging \<and> lopen),
       enable_performance_stats = stats,
       enable_pitch_detection = pitch,
       enable_visual_feedback = visual,
       should_quit = False,
       total_beats = 0,
       total_onsets = 0,
       recent_bpms = [],
       bpm_stability = [],
       smoothed_bpm = 0,
       sample_accumulator = replicate n 0,
       accumulated_samples = 0,
       frame_count = 0,
       out_events = [],
       frames_done = [],
       engine_log = [] \<rparr>"

subsection \<open>Queries\<close>

definition get_average_bpm :: "real list \<Rightarrow> real" where
  "get_average_bpm bpms =
     (if bpms = [] then 0 else foldl (\<lambda>sum bpm. sum + bpm) 0 bpms / real (length bpms))"

definition get_bpm_variance :: "real list \<Rightarrow> real" where
  "get_bpm_variance stab =
     (if stab = [] then 999
      else
        let mean = foldl (\<lambda>m bpm. m + bpm) 0 stab / real (length stab);
            variance = foldl (\<lambda>v bpm. v + (bpm - mean) * (bpm - mean)) 0 stab
        in sqrt (variance / real (length stab)))"

definition generate_beat_visual :: "detector \<Rightarrow> real \<Rightarrow> real \<Rightarrow> bool \<Rightarrow> event list" where
  "generate_beat_visual d bpm confidence is_beat =
     (if \<not> enable_visual_feedback d then []
      else if is_beat then [Beat_visual bpm confidence (get_average_bpm (recent_bpms d))]
      else [])"

subsection \<open>One full frame (lines 429 to 540)\<close>

text \<open>The two accumulations of the loop of lines 434 to 438.\<close>

definition max_amplitude :: "real list \<Rightarrow> real" where
  "max_amplitude frame = foldl (\<lambda>m s. max m \<bar>s\<bar>) 0 frame"

definition rms_energy :: "nat \<Rightarrow> real list \<Rightarrow> real" where
  "rms_energy n frame = sqrt (foldl (\<lambda>r s. r + s * s) 0 frame / real n)"

text \<open>
  Lines 453 to 454: the value handed to \<^verbatim>\<open>aubio_onset_set_threshold\<close>. The literals
  are \<^verbatim>\<open>0.15f\<close>, which is \<open>5033165 / 33554432\<close>, and \<^verbatim>\<open>0.3f\<close>, which is
  \<open>5033165 / 16777216\<close>, twice the former.
\<close>

definition adaptive_threshold :: "real \<Rightarrow> real" where
  "adaptive_threshold rms =
     min (5033165 / 33554432 + (5033165 / 33554432) * rms) (5033165 / 16777216)"

text \<open>Lines 472 to 476.\<close>

definition smooth_bpm :: "real \<Rightarrow> real \<Rightarrow> real" where
  "smooth_bpm smoothed current_bpm =
     (if current_bpm > BPM_MIN \<and> current_bpm < BPM_MAX
      then (7 / 10) * smoothed + (3 / 10) * current_bpm
      else if smoothed = 0 then current_bpm
      else smoothed)"

text \<open>Line 463 and line 479.\<close>

definition is_onset :: "analysis_result \<Rightarrow> bool" where
  "is_onset r = (ar_onset_out r \<noteq> 0)"

definition is_beat :: "analysis_result \<Rightarrow> bool" where
  "is_beat r = (is_onset r \<and> ar_confidence r > CONFIDENCE_THRESHOLD)"

text \<open>
  \<^verbatim>\<open>push_back\<close> followed by the \<^verbatim>\<open>erase(begin())\<close> that is guarded by the size
  (lines 495 to 498 and 501 to 504).
\<close>

definition push_bounded :: "nat \<Rightarrow> real \<Rightarrow> real list \<Rightarrow> real list" where
  "push_bounded cap x xs =
     (let ys = xs @ [x] in if length ys > cap then tl ys else ys)"

text \<open>The body of \<^verbatim>\<open>if (is_beat)\<close>, lines 492 to 536.\<close>

definition beat_branch :: "detector \<Rightarrow> real \<Rightarrow> real \<Rightarrow> real \<Rightarrow> detector" where
  "beat_branch d tempo_confidence pitch_hz max_amp =
     (let d1 = d\<lparr>total_beats := total_beats d + 1\<rparr>;
          d2 = d1\<lparr>recent_bpms := push_bounded BPM_HISTORY_SIZE (smoothed_bpm d1) (recent_bpms d1)\<rparr>;
          d3 = d2\<lparr>bpm_stability := push_bounded STABILITY_WINDOW (smoothed_bpm d2) (bpm_stability d2)\<rparr>;
          variance = get_bpm_variance (bpm_stability d3);
          is_stable = (variance < BPM_VARIANCE_LIMIT);
          shown = (if enable_visual_feedback d3
                   then generate_beat_visual d3 (smoothed_bpm d3) tempo_confidence True
                   else [Beat_console (smoothed_bpm d3) tempo_confidence is_stable]);
          logged = (if enable_logging d3 \<and> log_is_open d3
                    then [Log_line (smoothed_bpm d3) tempo_confidence pitch_hz max_amp
                            (get_bpm_variance (bpm_stability d3))]
                    else [])
      in d3\<lparr>out_events := out_events d3 @ shown @ logged\<rparr>)"

definition process_frame :: "engine \<Rightarrow> detector \<Rightarrow> real list \<Rightarrow> detector" where
  "process_frame E d frame =
     (let max_amp = max_amplitude frame;
          rms = rms_energy (buf_size d) frame;
          d1 = d\<lparr>frames_done := frames_done d @ [frame], frame_count := frame_count d + 1\<rparr>
      in if max_amp < SILENCE_THRESHOLD then
           d1\<lparr>out_events := out_events d1 @
                  (if frame_count d1 mod 200 = 0 then [Silence_msg (frame_count d1) max_amp] else []),
              accumulated_samples := 0\<rparr>
         else
           let d2 = d1\<lparr>engine_log := engine_log d1 @
                        [\<lparr>ec_threshold = adaptive_threshold rms, ec_frame = frame\<rparr>]\<rparr>;
               r = E (engine_log d2);
               current_bpm = ar_bpm r;
               tempo_confidence = ar_confidence r;
               pitch_hz = (if enable_pitch_detection d2 then ar_pitch r else 0);
               d3 = d2\<lparr>smoothed_bpm := smooth_bpm (smoothed_bpm d2) current_bpm\<rparr>;
               d4 = d3\<lparr>out_events := out_events d3 @
                        (if frame_count d3 mod 200 = 0
                         then [Debug_msg (frame_count d3) max_amp (smoothed_bpm d3)
                                 tempo_confidence (is_beat r)]
                         else [])\<rparr>;
               d5 = (if is_beat r then beat_branch d4 tempo_confidence pitch_hz max_amp else d4)
           in d5\<lparr>total_onsets := total_onsets d5 + 1, accumulated_samples := 0\<rparr>)"

subsection \<open>The sample loop and the callback (lines 407 to 555)\<close>

text \<open>
  One iteration of the loop of line 425. The write of line 426 is into a vector of
  \<open>length (sample_accumulator d)\<close> cells; a write outside it has no defined behaviour
  and is the result \<open>None\<close>. When the frame is full, \<^verbatim>\<open>memcpy\<close> copies the first
  \<open>buf_size\<close> cells.
\<close>

definition feed :: "engine \<Rightarrow> detector \<Rightarrow> real \<Rightarrow> detector option" where
  "feed E d x =
     (if \<not> accumulated_samples d < length (sample_accumulator d) then None
      else
        let d1 = d\<lparr>sample_accumulator := (sample_accumulator d)[accumulated_samples d := x],
                   accumulated_samples := accumulated_samples d + 1\<rparr>
        in if accumulated_samples d1 \<ge> buf_size d1
           then Some (process_frame E d1 (take (buf_size d1) (sample_accumulator d1)))
           else Some d1)"

fun accumulate :: "engine \<Rightarrow> detector \<Rightarrow> real list \<Rightarrow> detector option" where
  "accumulate E d [] = Some d"
| "accumulate E d (x # xs) =
     (case feed E d x of None \<Rightarrow> None | Some d' \<Rightarrow> accumulate E d' xs)"

text \<open>
  \<^verbatim>\<open>process_audio\<close>: nothing happens when the quit flag is set, when no buffer could be
  dequeued or when its data pointer is null (the input \<open>None\<close>).
\<close>

definition process_audio :: "engine \<Rightarrow> detector \<Rightarrow> real list option \<Rightarrow> detector option" where
  "process_audio E d inp =
     (if should_quit d then Some d
      else case inp of None \<Rightarrow> Some d | Some audio_data \<Rightarrow> accumulate E d audio_data)"

text \<open>The callbacks of one session, in order.\<close>

fun run :: "engine \<Rightarrow> detector \<Rightarrow> real list option list \<Rightarrow> detector option" where
  "run E d [] = Some d"
| "run E d (inp # inps) =
     (case process_audio E d inp of None \<Rightarrow> None | Some d' \<Rightarrow> run E d' inps)"

text \<open>What aubio reports for the frame \<open>frame\<close> when it is handed over in state \<open>d\<close>.\<close>

definition analysis_of :: "engine \<Rightarrow> detector \<Rightarrow> real list \<Rightarrow> analysis_result" where
  "analysis_of E d frame =
     E (engine_log d @
        [\<lparr>ec_threshold = adaptive_threshold (rms_energy (buf_size d) frame), ec_frame = frame\<rparr>])"

text \<open>
  The state the constructor leaves: the accumulator has \<open>buf_size\<close> cells and the write
  offset is inside it.
\<close>

definition well_formed :: "detector \<Rightarrow> bool" where
  "well_formed d = (length (sample_accumulator d) = buf_size d \<and> accumulated_samples d < buf_size d)"

text \<open>The samples held in the accumulator: the cells below the write offset.\<close>

definition pending :: "detector \<Rightarrow> real list" where
  "pending d = take (accumulated_samples d) (sample_accumulator d)"

text \<open>The bounds on the two histories, as one invariant.\<close>

definition bounded_histories :: "detector \<Rightarrow> bool" where
  "bounded_histories d =
     (length (recent_bpms d) \<le> BPM_HISTORY_SIZE \<and> length (bpm_stability d) \<le> STABILITY_WINDOW)"

subsection \<open>The command line (lines 614 to 651)\<close>

text \<open>
  \<^verbatim>\<open>std::stoul\<close> with base 10, for a 64-bit \<^verbatim>\<open>unsigned long\<close>: leading white space
  is skipped, one sign is accepted, the longest run of digits is read. No digit throws
  \<^verbatim>\<open>invalid_argument\<close>, a magnitude above \<open>2^64 - 1\<close> throws \<^verbatim>\<open>out_of_range\<close>, and a
  minus sign negates the value as an unsigned number.
\<close>

datatype stoul_error = Invalid_argument | Out_of_range

definition is_space :: "char \<Rightarrow> bool" where
  "is_space c = (of_char c \<in> {9, 10, 11, 12, 13, 32 :: nat})"

definition is_digit :: "char \<Rightarrow> bool" where
  "is_digit c = (48 \<le> (of_char c :: nat) \<and> (of_char c :: nat) \<le> 57)"

definition digits_value :: "string \<Rightarrow> nat" where
  "digits_value ds = foldl (\<lambda>v c. 10 * v + (of_char c - 48)) 0 ds"

definition stoul :: "string \<Rightarrow> stoul_error + 64 word" where
  "stoul str =
     (let s1 = dropWhile is_space str;
          neg = (case s1 of [] \<Rightarrow> False | c # _ \<Rightarrow> c = CHR ''-'');
          s2 = (case s1 of [] \<Rightarrow> [] | c # cs \<Rightarrow> if c = CHR ''-'' \<or> c = CHR ''+'' then cs else s1);
          ds = takeWhile is_digit s2
      in if ds = [] then Inl Invalid_argument
         else if digits_value ds \<ge> 2 ^ 64 then Inl Out_of_range
         else Inr (if neg then - (of_nat (digits_value ds)) else of_nat (digits_value ds)))"

record options =
  buffer_size :: "32 word"
  opt_logging :: bool
  opt_performance_stats :: bool
  opt_pitch_detection :: bool
  opt_visual_feedback :: bool

definition default_options :: options where
  "default_options =
     \<lparr> buffer_size = 128, opt_logging = True, opt_performance_stats = True,
       opt_pitch_detection = False, opt_visual_feedback = True \<rparr>"

text \<open>
  What \<^verbatim>\<open>main\<close> prints while it reads the arguments: the text of \<^verbatim>\<open>print_usage\<close>,
  or one of the three error lines.
\<close>

datatype main_msg = Usage | Err_range | Err_invalid string | Err_unknown string

text \<open>
  \<open>Exit code msgs\<close> is a \<^verbatim>\<open>return\<close> from inside the loop; \<open>Start opts\<close> is the loop
  running to its end, after which the detector is built and run with \<open>opts\<close>.
\<close>

datatype outcome = Exit int "main_msg list" | Start options

text \<open>\<^verbatim>\<open>arg[0]\<close>: the terminating zero byte when the string is empty.\<close>

definition first_char :: "string \<Rightarrow> char" where
  "first_char arg = (case arg of [] \<Rightarrow> CHR 0x00 | c # _ \<Rightarrow> c)"

fun parse_args :: "options \<Rightarrow> string list \<Rightarrow> outcome" where
  "parse_args opts [] = Start opts"
| "parse_args opts (arg # rest) =
     (if arg = ''--help'' \<or> arg = ''-h'' then Exit 0 [Usage]
      else if arg = ''--no-log'' then parse_args (opts\<lparr>opt_logging := False\<rparr>) rest
      else if arg = ''--no-stats'' then parse_args (opts\<lparr>opt_performance_stats := False\<rparr>) rest
      else if arg = ''--pitch'' then parse_args (opts\<lparr>opt_pitch_detection := True\<rparr>) rest
      else if arg = ''--no-visual'' then parse_args (opts\<lparr>opt_visual_feedback := False\<rparr>) rest
      else if first_char arg \<noteq> CHR ''-'' then
        (case stoul arg of
           Inl e \<Rightarrow> Exit 1 [Err_invalid arg]
         | Inr v \<Rightarrow>
             let opts' = opts\<lparr>buffer_size := ucast v\<rparr>
             in if buffer_size opts' < 64 \<or> buffer_size opts' > 8192
                then Exit 1 [Err_range]
                else parse_args opts' rest)
      else Exit 1 [Err_unknown arg, Usage])"

text \<open>\<^verbatim>\<open>main\<close> up to line 651; \<open>argv\<close> starts with the program name.\<close>

definition main_args :: "string list \<Rightarrow> outcome" where
  "main_args argv = parse_args default_options (tl argv)"

definition exit_code :: "outcome \<Rightarrow> int option" where
  "exit_code out = (case out of Exit c msgs \<Rightarrow> Some c | Start opts \<Rightarrow> None)"

definition messages :: "outcome \<Rightarrow> main_msg list" where
  "messages out = (case out of Exit c msgs \<Rightarrow> msgs | Start opts \<Rightarrow> [])"

definition usage_shown :: "outcome \<Rightarrow> bool" where
  "usage_shown out = (case out of Exit c msgs \<Rightarrow> Usage \<in> set msgs | Start opts \<Rightarrow> False)"

text \<open>
  What one argument is to the loop of \<^verbatim>\<open>main\<close>, in the order of its tests. A size is
  too wide when \<^verbatim>\<open>std::stoul\<close> accepts it and it does not fit the 32 bits of
  \<^verbatim>\<open>buffer_size\<close>.
\<close>

datatype arg_kind =
  Help | Known_flag | Unknown_flag | Unparsable | Size_out_of_range | Size_in_range | Size_too_wide

definition arg_kind :: "string \<Rightarrow> arg_kind" where
  "arg_kind arg =
     (if arg = ''--help'' \<or> arg = ''-h'' then Help
      else if arg = ''--no-log'' \<or> arg = ''--no-stats'' \<or> arg = ''--pitch'' \<or> arg = ''--no-visual''
      then Known_flag
      else if first_char arg = CHR ''-'' then Unknown_flag
      else case stoul arg of
             Inl e \<Rightarrow> Unparsable
           | Inr v \<Rightarrow>
               if v \<ge> 2 ^ 32 then Size_too_wide
               else if v < 64 \<or> v > 8192 then Size_out_of_range
               else Size_in_range)"

subsection \<open>The specification's notions\<close>

text \<open>The population standard deviation of the specification, section 4.4.\<close>

definition mean :: "real list \<Rightarrow> real" where
  "mean w = sum_list w / real (length w)"

definition population_stddev :: "real list \<Rightarrow> real" where
  "population_stddev w = sqrt ((\<Sum>x\<leftarrow>w. (x - mean w)\<^sup>2) / real (length w))"

text \<open>The \<open>i\<close>-th run of \<open>n\<close> consecutive samples of a stream.\<close>

definition frame_slice :: "nat \<Rightarrow> real list \<Rightarrow> nat \<Rightarrow> real list" where
  "frame_slice n xs i = take n (drop (i * n) xs)"

subsection \<open>Example inputs\<close>

text \<open>
  The frames and the engine of the end-to-end scenario of the specification, section 8,
  at the smallest buffer size the command line accepts.
\<close>

definition loud_frame :: "real list" where
  "loud_frame = replicate 64 (1 / 2)"

definition silent_frame :: "real list" where
  "silent_frame = replicate 64 (1 / 500)"

text \<open>A frame whose peak is the threshold \<^verbatim>\<open>0.01f\<close> itself, and a frame at full scale.\<close>

definition threshold_frame :: "real list" where
  "threshold_frame = replicate 64 (5368709 / 536870912)"


definition steady_engine :: engine where
  "steady_engine calls = \<lparr>ar_bpm = 128, ar_confidence = 4 / 5, ar_onset_out = 1, ar_pitch = 0\<rparr>"

text \<open>An engine whose first tempo estimate is far out of range.\<close>

definition erratic_engine :: engine where
  "erratic_engine calls =
     (if length calls \<le> 1
      then \<lparr>ar_bpm = 6760, ar_confidence = 4 / 5, ar_onset_out = 1, ar_pitch = 0\<rparr>
      else \<lparr>ar_bpm = 100, ar_confidence = 4 / 5, ar_onset_out = 1, ar_pitch = 0\<rparr>)"

definition fresh :: detector where
  "fresh = new_detector 64 True True False False True"

section \<open>Properties\<close>

subsection \<open>Frame statistics\<close>

lemma max_amplitude_foldl_less:
  "foldl (\<lambda>m s. max m \<bar>s\<bar>) m (xs :: real list) < c \<longleftrightarrow> m < c \<and> (\<forall>s \<in> set xs. \<bar>s\<bar> < c)"
  by (induction xs arbitrary: m) auto

lemma max_amplitude_less_iff:
  "max_amplitude frame < c \<longleftrightarrow> 0 < c \<and> (\<forall>s \<in> set frame. \<bar>s\<bar> < c)"
  by (simp add: max_amplitude_def max_amplitude_foldl_less)

lemma max_amplitude_snoc: "max_amplitude (xs @ [x]) = max (max_amplitude xs) \<bar>x\<bar>"
  by (simp add: max_amplitude_def)

subsection \<open>Frames of equal samples\<close>

lemma foldl_max_replicate:
  "foldl (\<lambda>m s. max m \<bar>s\<bar>) m (replicate n (c::real)) = (if n = 0 then m else max m \<bar>c\<bar>)"
  by (induction n arbitrary: m) auto

lemma max_amplitude_replicate:
  "max_amplitude (replicate n c) = (if n = 0 then 0 else \<bar>c\<bar>)"
  by (simp add: max_amplitude_def foldl_max_replicate)



lemma max_amplitude_loud_frame: "max_amplitude loud_frame = 1 / 2"
  by (simp add: loud_frame_def max_amplitude_replicate)

lemma max_amplitude_silent_frame: "max_amplitude silent_frame = 1 / 500"
  by (simp add: silent_frame_def max_amplitude_replicate)


subsection \<open>What one frame does to each field\<close>

lemma total_beats_beat_branch: "total_beats (beat_branch d c p a) = total_beats d + 1"
  by (simp add: beat_branch_def Let_def)

lemma smoothed_bpm_beat_branch: "smoothed_bpm (beat_branch d c p a) = smoothed_bpm d"
  by (simp add: beat_branch_def Let_def)

lemma total_onsets_beat_branch: "total_onsets (beat_branch d c p a) = total_onsets d"
  by (simp add: beat_branch_def Let_def)

lemma frame_count_beat_branch: "frame_count (beat_branch d c p a) = frame_count d"
  by (simp add: beat_branch_def Let_def)

lemma engine_log_beat_branch: "engine_log (beat_branch d c p a) = engine_log d"
  by (simp add: beat_branch_def Let_def)

lemma frames_done_beat_branch: "frames_done (beat_branch d c p a) = frames_done d"
  by (simp add: beat_branch_def Let_def)

lemma recent_bpms_beat_branch:
  "recent_bpms (beat_branch d c p a) = push_bounded BPM_HISTORY_SIZE (smoothed_bpm d) (recent_bpms d)"
  by (simp add: beat_branch_def Let_def)

lemma bpm_stability_beat_branch:
  "bpm_stability (beat_branch d c p a) = push_bounded STABILITY_WINDOW (smoothed_bpm d) (bpm_stability d)"
  by (simp add: beat_branch_def Let_def)

lemma static_beat_branch:
  "buf_size (beat_branch d c p a) = buf_size d"
  "sample_accumulator (beat_branch d c p a) = sample_accumulator d"
  "should_quit (beat_branch d c p a) = should_quit d"
  "enable_logging (beat_branch d c p a) = enable_logging d"
  "log_is_open (beat_branch d c p a) = log_is_open d"
  "enable_visual_feedback (beat_branch d c p a) = enable_visual_feedback d"
  "enable_pitch_detection (beat_branch d c p a) = enable_pitch_detection d"
  by (simp_all add: beat_branch_def Let_def)

lemma total_beats_process_frame:
  "total_beats (process_frame E d frame) =
     (if max_amplitude frame < SILENCE_THRESHOLD then total_beats d
      else if is_beat (analysis_of E d frame) then total_beats d + 1 else total_beats d)"
  by (simp add: process_frame_def Let_def analysis_of_def total_beats_beat_branch)

lemma smoothed_bpm_process_frame:
  "smoothed_bpm (process_frame E d frame) =
     (if max_amplitude frame < SILENCE_THRESHOLD then smoothed_bpm d
      else smooth_bpm (smoothed_bpm d) (ar_bpm (analysis_of E d frame)))"
  by (simp add: process_frame_def Let_def analysis_of_def smoothed_bpm_beat_branch)

lemma frame_count_process_frame:
  "frame_count (process_frame E d frame) = frame_count d + 1"
  by (simp add: process_frame_def Let_def frame_count_beat_branch)

lemma total_onsets_process_frame:
  "total_onsets (process_frame E d frame) =
     (if max_amplitude frame < SILENCE_THRESHOLD then total_onsets d else total_onsets d + 1)"
  by (simp add: process_frame_def Let_def total_onsets_beat_branch)

lemma engine_log_process_frame:
  "engine_log (process_frame E d frame) =
     (if max_amplitude frame < SILENCE_THRESHOLD then engine_log d
      else engine_log d @
        [\<lparr>ec_threshold = adaptive_threshold (rms_energy (buf_size d) frame), ec_frame = frame\<rparr>])"
  by (simp add: process_frame_def Let_def engine_log_beat_branch)

lemma frames_done_process_frame:
  "frames_done (process_frame E d frame) = frames_done d @ [frame]"
  by (simp add: process_frame_def Let_def frames_done_beat_branch)

lemma recent_bpms_process_frame:
  "recent_bpms (process_frame E d frame) =
     (if max_amplitude frame < SILENCE_THRESHOLD then recent_bpms d
      else if is_beat (analysis_of E d frame)
      then push_bounded BPM_HISTORY_SIZE
             (smooth_bpm (smoothed_bpm d) (ar_bpm (analysis_of E d frame))) (recent_bpms d)
      else recent_bpms d)"
  by (simp add: process_frame_def Let_def analysis_of_def recent_bpms_beat_branch)

lemma bpm_stability_process_frame:
  "bpm_stability (process_frame E d frame) =
     (if max_amplitude frame < SILENCE_THRESHOLD then bpm_stability d
      else if is_beat (analysis_of E d frame)
      then push_bounded STABILITY_WINDOW
             (smooth_bpm (smoothed_bpm d) (ar_bpm (analysis_of E d frame))) (bpm_stability d)
      else bpm_stability d)"
  by (simp add: process_frame_def Let_def analysis_of_def bpm_stability_beat_branch)

lemma static_process_frame:
  "buf_size (process_frame E d frame) = buf_size d"
  "sample_accumulator (process_frame E d frame) = sample_accumulator d"
  "should_quit (process_frame E d frame) = should_quit d"
  "accumulated_samples (process_frame E d frame) = 0"
  by (simp_all add: process_frame_def Let_def static_beat_branch)

subsection \<open>The accumulator\<close>

lemma take_update_last:
  "k < length xs \<Longrightarrow> take (Suc k) (xs[k := x]) = take k xs @ [x]"
  by (simp add: take_Suc_conv_app_nth)

lemma feed_well_formed:
  assumes "well_formed d"
  shows "feed E d x =
     Some (if Suc (accumulated_samples d) < buf_size d
           then d\<lparr>sample_accumulator := (sample_accumulator d)[accumulated_samples d := x],
                  accumulated_samples := Suc (accumulated_samples d)\<rparr>
           else process_frame E
                  (d\<lparr>sample_accumulator := (sample_accumulator d)[accumulated_samples d := x],
                     accumulated_samples := Suc (accumulated_samples d)\<rparr>)
                  (pending d @ [x]))"
proof (cases "Suc (accumulated_samples d) < buf_size d")
  case True
  with assms show ?thesis by (simp add: feed_def well_formed_def Let_def)
next
  case False
  with assms have eq: "buf_size d = Suc (accumulated_samples d)"
    and len: "accumulated_samples d < length (sample_accumulator d)"
    by (simp_all add: well_formed_def)
  have "take (buf_size d) ((sample_accumulator d)[accumulated_samples d := x]) = pending d @ [x]"
    unfolding eq pending_def using len by (rule take_update_last)
  with False len show ?thesis by (simp add: feed_def Let_def)
qed

lemma feed_preserves:
  assumes "well_formed d" and "feed E d x = Some d'"
  shows "well_formed d'" and "buf_size d' = buf_size d" and "should_quit d' = should_quit d"
  using assms by (auto simp: feed_well_formed well_formed_def static_process_frame split: if_splits)

lemma feed_frames:
  assumes "well_formed d" and "feed E d x = Some d'"
  shows "frames_done d' =
           (if Suc (accumulated_samples d) < buf_size d then frames_done d
            else frames_done d @ [pending d @ [x]])"
    and "pending d' = (if Suc (accumulated_samples d) < buf_size d then pending d @ [x] else [])"
  using assms
  by (auto simp: feed_well_formed well_formed_def pending_def static_process_frame frames_done_process_frame
      take_update_last split: if_splits)

lemma frame_slice_0_append: "length f = n \<Longrightarrow> frame_slice n (f @ xs) 0 = f"
  by (simp add: frame_slice_def)

lemma frame_slice_Suc_append: "length f = n \<Longrightarrow> frame_slice n (f @ xs) (Suc i) = frame_slice n xs i"
  by (simp add: frame_slice_def)

lemma slices_append_frame:
  assumes "length f = n" and "0 < n"
  shows "map (frame_slice n (f @ xs)) [0..<length (f @ xs) div n] =
           f # map (frame_slice n xs) [0..<length xs div n]"
proof -
  have "length (f @ xs) div n = Suc (length xs div n)"
    using assms by simp
  moreover have "[0..<Suc (length xs div n)] = 0 # map Suc [0..<length xs div n]"
    by (simp add: upt_conv_Cons map_Suc_upt del: upt_Suc)
  ultimately show ?thesis
    using assms(1) by (simp add: frame_slice_0_append frame_slice_Suc_append comp_def del: upt_Suc)
qed

lemma rest_append_frame:
  assumes "length f = n" and "0 < n"
  shows "drop (length (f @ xs) div n * n) (f @ xs) = drop (length xs div n * n) xs"
proof -
  have "length (f @ xs) div n = Suc (length xs div n)"
    using assms by simp
  then show ?thesis using assms(1) by simp
qed

lemma length_pending: "well_formed d \<Longrightarrow> length (pending d) = accumulated_samples d"
  by (simp add: well_formed_def pending_def)

lemma accumulate_frames:
  assumes "well_formed d"
  shows "\<exists>d'. accumulate E d xs = Some d' \<and> well_formed d' \<and> buf_size d' = buf_size d
           \<and> should_quit d' = should_quit d
           \<and> frames_done d' =
               frames_done d @
                 map (frame_slice (buf_size d) (pending d @ xs))
                   [0..<length (pending d @ xs) div buf_size d]
           \<and> pending d' =
               drop (length (pending d @ xs) div buf_size d * buf_size d) (pending d @ xs)"
  using assms
proof (induction xs arbitrary: d)
  case Nil
  then have "length (pending d) < buf_size d"
    by (simp add: length_pending well_formed_def)
  with Nil show ?case by simp
next
  case (Cons x xs)
  from \<open>well_formed d\<close> obtain d1 where d1: "feed E d x = Some d1"
    by (simp add: feed_well_formed)
  note p = feed_preserves [OF \<open>well_formed d\<close> d1] and f = feed_frames [OF \<open>well_formed d\<close> d1]
  from Cons.IH [OF p(1)] obtain d' where d':
    "accumulate E d1 xs = Some d'" "well_formed d'" "buf_size d' = buf_size d1"
    "should_quit d' = should_quit d1"
    "frames_done d' = frames_done d1 @
       map (frame_slice (buf_size d1) (pending d1 @ xs)) [0..<length (pending d1 @ xs) div buf_size d1]"
    "pending d' = drop (length (pending d1 @ xs) div buf_size d1 * buf_size d1) (pending d1 @ xs)"
    by blast
  show ?case
  proof (cases "Suc (accumulated_samples d) < buf_size d")
    case True
    with d1 d' p f show ?thesis by simp
  next
    case False
    with \<open>well_formed d\<close> have len: "length (pending d @ [x]) = buf_size d" and pos: "0 < buf_size d"
      by (simp_all add: length_pending well_formed_def)
    have "map (frame_slice (buf_size d) ((pending d @ [x]) @ xs))
            [0..<length ((pending d @ [x]) @ xs) div buf_size d] =
          (pending d @ [x]) # map (frame_slice (buf_size d) xs) [0..<length xs div buf_size d]"
      by (rule slices_append_frame [OF len pos])
    moreover have "drop (length ((pending d @ [x]) @ xs) div buf_size d * buf_size d)
            ((pending d @ [x]) @ xs) = drop (length xs div buf_size d * buf_size d) xs"
      by (rule rest_append_frame [OF len pos])
    ultimately show ?thesis
      using False d1 d' p f by simp
  qed
qed

lemma accumulate_append:
  "accumulate E d (xs @ ys) =
     (case accumulate E d xs of None \<Rightarrow> None | Some d' \<Rightarrow> accumulate E d' ys)"
  by (induction xs arbitrary: d) (auto split: option.splits)

lemma run_chunks:
  assumes "well_formed d" and "\<not> should_quit d"
  shows "run E d (map Some chunks) = accumulate E d (concat chunks)"
  using assms
proof (induction chunks arbitrary: d)
  case Nil
  show ?case by simp
next
  case (Cons c cs)
  from accumulate_frames [OF \<open>well_formed d\<close>, of E c] obtain d1 where
    d1: "accumulate E d c = Some d1" "well_formed d1" "should_quit d1 = should_quit d"
    by blast
  with Cons show ?case
    by (simp add: process_audio_def accumulate_append)
qed

lemma concat_slices: "concat (map (frame_slice n ys) [0..<k]) = take (k * n) ys"
proof (induction k)
  case 0
  show ?case by simp
next
  case (Suc k)
  have "take (k * n) ys @ take n (drop (k * n) ys) = take (k * n + n) ys"
    by (simp add: take_add)
  with Suc show ?case by (simp add: frame_slice_def add.commute)
qed

lemma run_total:
  assumes "well_formed d"
  shows "\<exists>d'. run E d inps = Some d' \<and> well_formed d'"
  using assms
proof (induction inps arbitrary: d)
  case Nil
  then show ?case by simp
next
  case (Cons inp inps)
  have "\<exists>d1. process_audio E d inp = Some d1 \<and> well_formed d1"
  proof (cases inp)
    case None
    with \<open>well_formed d\<close> show ?thesis by (simp add: process_audio_def)
  next
    case (Some xs)
    from accumulate_frames [OF \<open>well_formed d\<close>, of E xs] obtain d1 where
      "accumulate E d xs = Some d1" "well_formed d1" by blast
    with Some \<open>well_formed d\<close> show ?thesis by (auto simp: process_audio_def)
  qed
  then obtain d1 where "process_audio E d inp = Some d1" "well_formed d1" by blast
  with Cons.IH [of d1] show ?case by simp
qed

lemma accumulate_fill:
  assumes "length (sample_accumulator d) = buf_size d"
      and "accumulated_samples d + length xs < buf_size d"
  shows "accumulate E d xs =
     Some (d\<lparr>sample_accumulator :=
               take (accumulated_samples d) (sample_accumulator d) @ xs @
               drop (accumulated_samples d + length xs) (sample_accumulator d),
             accumulated_samples := accumulated_samples d + length xs\<rparr>)"
  using assms
proof (induction xs arbitrary: d)
  case Nil
  then show ?case by simp
next
  case (Cons x xs)
  let ?k = "accumulated_samples d" and ?acc = "sample_accumulator d"
  let ?d1 = "d\<lparr>sample_accumulator := ?acc[?k := x], accumulated_samples := Suc ?k\<rparr>"
  from Cons.prems have well_formed: "well_formed d" and lt: "Suc ?k < buf_size d" and k: "?k < length ?acc"
    by (simp_all add: well_formed_def)
  have step: "feed E d x = Some ?d1"
    using lt by (simp add: feed_well_formed [OF well_formed])
  have "accumulate E ?d1 xs =
     Some (?d1\<lparr>sample_accumulator :=
               take (accumulated_samples ?d1) (sample_accumulator ?d1) @ xs @
               drop (accumulated_samples ?d1 + length xs) (sample_accumulator ?d1),
             accumulated_samples := accumulated_samples ?d1 + length xs\<rparr>)"
    by (rule Cons.IH) (use Cons.prems in simp_all)
  then show ?case
    using step k by (simp add: take_update_last)
qed

lemma accumulate_whole_frame:
  assumes "well_formed d" and "accumulated_samples d = 0" and "length xs = buf_size d"
  shows "accumulate E d xs =
     Some (process_frame E (d\<lparr>sample_accumulator := xs, accumulated_samples := buf_size d\<rparr>) xs)"
proof -
  from assms have "xs \<noteq> []" by (auto simp: well_formed_def)
  then obtain ys x where xs: "xs = ys @ [x]"
    by (metis rev_exhaust)
  let ?acc = "sample_accumulator d"
  let ?d1 = "d\<lparr>sample_accumulator := ys @ drop (length ys) ?acc, accumulated_samples := length ys\<rparr>"
  have len: "length ?acc = Suc (length ys)" "buf_size d = Suc (length ys)"
    using assms xs by (simp_all add: well_formed_def)
  have "accumulate E d ys = Some ?d1"
    using accumulate_fill [of d ys E] assms(2) len by simp
  moreover have "well_formed ?d1"
    using len by (simp add: well_formed_def)
  moreover have "pending ?d1 = ys"
    by (simp add: pending_def)
  moreover have "(ys @ drop (length ys) ?acc)[length ys := x] = ys @ [x]"
  proof -
    have "length (drop (length ys) ?acc) = Suc 0"
      using len by simp
    then obtain a where "drop (length ys) ?acc = [a]"
      by (metis length_0_conv length_Suc_conv)
    then show ?thesis by (simp add: list_update_append)
  qed
  ultimately show ?thesis
    using len by (simp add: xs accumulate_append feed_well_formed)
qed

lemma process_audio_whole_frame:
  assumes "well_formed d" and "accumulated_samples d = 0" and "\<not> should_quit d"
      and "length xs = buf_size d"
  shows "process_audio E d (Some xs) =
     Some (process_frame E (d\<lparr>sample_accumulator := xs, accumulated_samples := buf_size d\<rparr>) xs)"
  using assms by (simp add: process_audio_def accumulate_whole_frame)

subsection \<open>The variance query\<close>

lemma foldl_add_sum_list: "foldl (\<lambda>m bpm. m + bpm) a (xs :: real list) = a + sum_list xs"
  by (induction xs arbitrary: a) (simp_all add: add.assoc)

lemma foldl_squares_sum_list:
  "foldl (\<lambda>v bpm. v + (bpm - m) * (bpm - m)) a (xs :: real list) = a + (\<Sum>x\<leftarrow>xs. (x - m)\<^sup>2)"
  by (induction xs arbitrary: a) (simp_all add: add.assoc power2_eq_square)

lemma get_bpm_variance_nonempty:
  "w \<noteq> [] \<Longrightarrow> get_bpm_variance w = population_stddev w"
  by (simp add: get_bpm_variance_def population_stddev_def mean_def Let_def
      foldl_add_sum_list foldl_squares_sum_list)

lemma population_stddev_replicate: "population_stddev (replicate n c) = 0"
proof (cases "n = 0")
  case True
  then show ?thesis by (simp add: population_stddev_def)
next
  case False
  then have "mean (replicate n c) = c"
    by (simp add: mean_def sum_list_replicate)
  then show ?thesis
    by (simp add: population_stddev_def sum_list_replicate map_replicate_const)
qed

subsection \<open>The bounded histories\<close>

lemma length_push_bounded:
  "length xs \<le> cap \<Longrightarrow> length (push_bounded cap x xs) \<le> cap"
  by (simp add: push_bounded_def Let_def)

lemma push_bounded_nonempty: "0 < cap \<Longrightarrow> push_bounded cap x xs \<noteq> []"
  by (cases xs) (simp_all add: push_bounded_def Let_def)

lemma push_bounded_eq:
  "length xs \<le> cap \<Longrightarrow> 0 < cap \<Longrightarrow>
     push_bounded cap x xs = (if length xs < cap then xs @ [x] else tl xs @ [x])"
  by (cases xs) (auto simp: push_bounded_def Let_def)

lemma push_bounded_drop:
  assumes "length h \<le> cap" and "0 < cap"
  shows "push_bounded cap x h = drop (length (h @ [x]) - cap) (h @ [x])"
proof (cases "length h < cap")
  case True
  then show ?thesis by (simp add: push_bounded_def Let_def)
next
  case False
  with assms have "length h = cap" by simp
  with assms(2) show ?thesis
    by (cases h) (simp_all add: push_bounded_def Let_def)
qed

lemma pushes_drop:
  assumes "length h \<le> cap" and "0 < cap"
  shows "foldl (\<lambda>h v. push_bounded cap v h) h vs = drop (length (h @ vs) - cap) (h @ vs)"
  using assms(1)
proof (induction vs arbitrary: h)
  case Nil
  then show ?case by simp
next
  case (Cons v vs)
  let ?h' = "push_bounded cap v h"
  have h': "?h' = drop (length (h @ [v]) - cap) (h @ [v])"
    using Cons.prems assms(2) by (rule push_bounded_drop)
  have len: "length ?h' \<le> cap"
    using Cons.prems by (rule length_push_bounded)
  have "foldl (\<lambda>h v. push_bounded cap v h) ?h' vs = drop (length (?h' @ vs) - cap) (?h' @ vs)"
    using len by (rule Cons.IH)
  also have "\<dots> = drop (length (h @ v # vs) - cap) (h @ v # vs)"
  proof (cases "length h < cap")
    case True
    then show ?thesis by (simp add: h')
  next
    case False
    with Cons.prems have "length h = cap" by simp
    with assms(2) show ?thesis by (simp add: h')
  qed
  finally show ?case by simp
qed

lemma last_push_bounded: "0 < cap \<Longrightarrow> last (push_bounded cap x xs) = x"
  by (cases xs) (simp_all add: push_bounded_def Let_def)

lemma bounded_process_frame:
  "bounded_histories d \<Longrightarrow> bounded_histories (process_frame E d frame)"
  by (simp add: bounded_histories_def recent_bpms_process_frame bpm_stability_process_frame
      length_push_bounded)

lemma bounded_feed:
  assumes "bounded_histories d" and "feed E d x = Some d'"
  shows "bounded_histories d'"
proof -
  let ?d1 = "d\<lparr>sample_accumulator := (sample_accumulator d)[accumulated_samples d := x],
               accumulated_samples := accumulated_samples d + 1\<rparr>"
  have "bounded_histories ?d1"
    using assms(1) by (simp add: bounded_histories_def)
  then show ?thesis
    using assms(2) bounded_process_frame [of ?d1 E]
    by (auto simp: feed_def Let_def split: if_splits)
qed

lemma bounded_accumulate:
  "bounded_histories d \<Longrightarrow> accumulate E d xs = Some d' \<Longrightarrow> bounded_histories d'"
proof (induction xs arbitrary: d)
  case Nil
  then show ?case by simp
next
  case (Cons x xs)
  then show ?case
    by (auto split: option.splits dest: bounded_feed)
qed

lemma bounded_process_audio:
  "bounded_histories d \<Longrightarrow> process_audio E d inp = Some d' \<Longrightarrow> bounded_histories d'"
  by (auto simp: process_audio_def split: if_splits option.splits dest: bounded_accumulate)

lemma bounded_run:
  "bounded_histories d \<Longrightarrow> run E d inps = Some d' \<Longrightarrow> bounded_histories d'"
proof (induction inps arbitrary: d)
  case Nil
  then show ?case by simp
next
  case (Cons inp inps)
  then show ?case
    by (auto split: option.splits dest: bounded_process_audio)
qed

subsection \<open>The events of one frame\<close>

lemma out_events_beat_branch:
  "out_events (beat_branch d c p a) =
     out_events d @
     (if enable_visual_feedback d
      then [Beat_visual (smoothed_bpm d) c
              (get_average_bpm (push_bounded BPM_HISTORY_SIZE (smoothed_bpm d) (recent_bpms d)))]
      else [Beat_console (smoothed_bpm d) c
              (get_bpm_variance (push_bounded STABILITY_WINDOW (smoothed_bpm d) (bpm_stability d))
                 < BPM_VARIANCE_LIMIT)]) @
     (if enable_logging d \<and> log_is_open d
      then [Log_line (smoothed_bpm d) c p a
              (get_bpm_variance (push_bounded STABILITY_WINDOW (smoothed_bpm d) (bpm_stability d)))]
      else [])"
  by (simp add: beat_branch_def Let_def generate_beat_visual_def)

lemma out_events_process_frame:
  "out_events (process_frame E d frame) =
     (if max_amplitude frame < SILENCE_THRESHOLD
      then out_events d @
        (if (frame_count d + 1) mod 200 = 0
         then [Silence_msg (frame_count d + 1) (max_amplitude frame)] else [])
      else
        out_events d @
        (if (frame_count d + 1) mod 200 = 0
         then [Debug_msg (frame_count d + 1) (max_amplitude frame)
                 (smooth_bpm (smoothed_bpm d) (ar_bpm (analysis_of E d frame)))
                 (ar_confidence (analysis_of E d frame)) (is_beat (analysis_of E d frame))]
         else []) @
        (if is_beat (analysis_of E d frame)
         then
           (if enable_visual_feedback d
            then [Beat_visual (smooth_bpm (smoothed_bpm d) (ar_bpm (analysis_of E d frame)))
                    (ar_confidence (analysis_of E d frame))
                    (get_average_bpm (recent_bpms (process_frame E d frame)))]
            else [Beat_console (smooth_bpm (smoothed_bpm d) (ar_bpm (analysis_of E d frame)))
                    (ar_confidence (analysis_of E d frame))
                    (get_bpm_variance (bpm_stability (process_frame E d frame))
                       < BPM_VARIANCE_LIMIT)]) @
           (if enable_logging d \<and> log_is_open d
            then [Log_line (smooth_bpm (smoothed_bpm d) (ar_bpm (analysis_of E d frame)))
                    (ar_confidence (analysis_of E d frame))
                    (if enable_pitch_detection d then ar_pitch (analysis_of E d frame) else 0)
                    (max_amplitude frame)
                    (get_bpm_variance (bpm_stability (process_frame E d frame)))]
            else [])
         else []))"
  by (simp add: recent_bpms_process_frame bpm_stability_process_frame)
     (simp add: process_frame_def Let_def analysis_of_def out_events_beat_branch)

subsection \<open>The command line\<close>

lemma parse_args_append:
  "parse_args opts pre = Start opts' \<Longrightarrow> parse_args opts (pre @ rest) = parse_args opts' rest"
  by (induction opts pre rule: parse_args.induct)
     (auto simp: Let_def split: if_splits sum.splits)

lemma ucast_small:
  fixes v :: "64 word"
  assumes "v < 2 ^ 32"
  shows "((ucast v :: 32 word) < 64) = (v < 64)" and "((ucast v :: 32 word) > 8192) = (v > 8192)"
proof -
  have "unat v < 2 ^ 32"
    using assms by (simp add: word_less_nat_alt)
  then have u: "unat (ucast v :: 32 word) = unat v"
    by (simp add: unsigned_ucast_eq take_bit_nat_eq_self)
  show "((ucast v :: 32 word) < 64) = (v < 64)"
    by (simp add: word_less_nat_alt u)
  show "((ucast v :: 32 word) > 8192) = (v > 8192)"
    by (simp add: word_less_nat_alt u)
qed

subsection \<open>Example runs\<close>

lemma fresh_fields:
  "buf_size fresh = 64" "smoothed_bpm fresh = 0" "total_beats fresh = 0" "total_onsets fresh = 0"
  "frame_count fresh = 0" "engine_log fresh = []" "recent_bpms fresh = []" "bpm_stability fresh = []"
  "frames_done fresh = []" "out_events fresh = []" "accumulated_samples fresh = 0"
  "sample_accumulator fresh = replicate 64 0" "should_quit fresh = False"
  "enable_logging fresh = True" "log_is_open fresh = True" "enable_visual_feedback fresh = False"
  "enable_pitch_detection fresh = False"
  by (simp_all add: fresh_def new_detector_def)

text \<open>The constructor establishes the invariant for every positive buffer size.\<close>

lemma well_formed_new_detector:
  "0 < n \<Longrightarrow> well_formed (new_detector n logging stats pitch visual lopen)"
  by (simp add: well_formed_def new_detector_def)

lemma well_formed_fresh: "well_formed fresh"
  unfolding fresh_def by (rule well_formed_new_detector) simp

lemma length_loud_frame: "length loud_frame = 64"
  by (simp add: loud_frame_def)

lemma loud_not_silent: "\<not> max_amplitude loud_frame < SILENCE_THRESHOLD"
  by (simp add: max_amplitude_loud_frame SILENCE_THRESHOLD_def)

lemma is_beat_erratic: "is_beat (erratic_engine calls)"
  by (simp add: is_beat_def is_onset_def erratic_engine_def CONFIDENCE_THRESHOLD_def)

lemma sqrt_998001: "sqrt 998001 = 999"
  by (rule real_sqrt_unique) simp_all

lemma is_beat_steady: "is_beat (steady_engine calls)"
  by (simp add: is_beat_def is_onset_def steady_engine_def CONFIDENCE_THRESHOLD_def)

lemma stoul_5: "stoul ''5'' = Inr 5"
  by (simp add: stoul_def is_space_def is_digit_def digits_value_def)

lemma stoul_256: "stoul ''256'' = Inr 256"
  by (simp add: stoul_def is_space_def is_digit_def digits_value_def)

lemma arg_kind_examples:
  "arg_kind ''5'' = Size_out_of_range" "arg_kind ''--help'' = Help"
  "arg_kind ''--fast'' = Unknown_flag" "arg_kind ''loud'' = Unparsable"
  by (simp_all add: arg_kind_def first_char_def stoul_def is_space_def is_digit_def
      digits_value_def)

lemma stoul_narrowing:
  "stoul ''4294967424'' = Inr 4294967424"
  "main_args [''beat_detector'', ''4294967424''] = Start default_options"
  by (simp_all add: main_args_def first_char_def stoul_def is_space_def is_digit_def
      digits_value_def Let_def default_options_def)

section \<open>The claims\<close>

subsection \<open>C1\<close>

text \<open>
  Claim C1. On a frame that passes the silence test, the beat flag of line 479 is true
  exactly when aubio reported an onset for the frame and the tempo confidence is strictly
  above 0.5, and the beat counter goes up by one exactly then. A confidence of exactly 0.5
  never gives a beat, and neither does a frame without onset.
\<close>

theorem C1_beat_flag:
  assumes "\<not> max_amplitude frame < SILENCE_THRESHOLD"
  shows "is_beat (analysis_of E d frame) =
           (ar_onset_out (analysis_of E d frame) \<noteq> 0 \<and> ar_confidence (analysis_of E d frame) > 1 / 2)
       \<and> total_beats (process_frame E d frame) =
           total_beats d +
             (if ar_onset_out (analysis_of E d frame) \<noteq> 0 \<and> ar_confidence (analysis_of E d frame) > 1 / 2
              then 1 else 0)
       \<and> \<not> is_beat (r\<lparr>ar_confidence := 1 / 2\<rparr>)
       \<and> \<not> is_beat (r\<lparr>ar_onset_out := 0\<rparr>)"
  using assms
  by (simp add: total_beats_process_frame is_beat_def is_onset_def CONFIDENCE_THRESHOLD_def)

text \<open>A loud frame on which the engine reports an onset with confidence 0.8 is a beat.\<close>

theorem C1_beat_flag_witness:
  "\<not> max_amplitude loud_frame < SILENCE_THRESHOLD
   \<and> is_beat (analysis_of steady_engine fresh loud_frame)
   \<and> total_beats (process_frame steady_engine fresh loud_frame) = 1"
  using C1_beat_flag [of loud_frame steady_engine fresh]
  by (simp add: max_amplitude_loud_frame SILENCE_THRESHOLD_def analysis_of_def steady_engine_def
      fresh_fields)

subsection \<open>C2\<close>

text \<open>
  Claim C2. On a frame that passes the silence test, with tempo estimate \<open>bpm\<close>: when
  \<open>60 < bpm < 200\<close> the new smoothed tempo is \<open>0.7 * smoothed + 0.3 * bpm\<close>; otherwise,
  when the smoothed tempo is 0, it becomes \<open>bpm\<close> whatever its value; otherwise it is
  unchanged. From 120, an estimate of 130 gives 123; from 0, an estimate of 45 gives 45.
\<close>

theorem C2_smoothing:
  assumes "\<not> max_amplitude frame < SILENCE_THRESHOLD"
  shows "smoothed_bpm (process_frame E d frame) =
           (if 60 < ar_bpm (analysis_of E d frame) \<and> ar_bpm (analysis_of E d frame) < 200
            then (7 / 10) * smoothed_bpm d + (3 / 10) * ar_bpm (analysis_of E d frame)
            else if smoothed_bpm d = 0 then ar_bpm (analysis_of E d frame)
            else smoothed_bpm d)
       \<and> smooth_bpm 120 130 = 123
       \<and> smooth_bpm 0 45 = 45"
  using assms
  by (simp add: smoothed_bpm_process_frame smooth_bpm_def BPM_MIN_def BPM_MAX_def)

text \<open>From 120, the estimate 128 of the example engine gives 122.4.\<close>

theorem C2_smoothing_witness:
  "\<not> max_amplitude loud_frame < SILENCE_THRESHOLD
   \<and> smoothed_bpm (process_frame steady_engine (fresh\<lparr>smoothed_bpm := 120\<rparr>) loud_frame) = 1224 / 10"
  using C2_smoothing [of loud_frame steady_engine "fresh\<lparr>smoothed_bpm := 120\<rparr>"]
  by (simp add: max_amplitude_loud_frame SILENCE_THRESHOLD_def analysis_of_def steady_engine_def)

subsection \<open>C3\<close>

text \<open>
  Claim C3, as the code has it. A full frame all of whose samples are below the silence
  threshold in absolute value is skipped: no call is made to aubio, and the smoothed
  tempo, the tempo history and the stability window are what they were. The threshold is
  the single-precision constant \<^verbatim>\<open>0.01f\<close>, which is \<open>5368709 / 536870912\<close>, a little
  below 0.01.
\<close>

theorem C3_silence_skip:
  assumes "\<forall>s \<in> set frame. \<bar>s\<bar> < 5368709 / 536870912"
  shows "SILENCE_THRESHOLD = 5368709 / 536870912
       \<and> SILENCE_THRESHOLD < 1 / 100
       \<and> smoothed_bpm (process_frame E d frame) = smoothed_bpm d
       \<and> recent_bpms (process_frame E d frame) = recent_bpms d
       \<and> bpm_stability (process_frame E d frame) = bpm_stability d
       \<and> engine_log (process_frame E d frame) = engine_log d
       \<and> total_beats (process_frame E d frame) = total_beats d"
proof -
  have "max_amplitude frame < SILENCE_THRESHOLD"
    unfolding SILENCE_THRESHOLD_def max_amplitude_less_iff using assms by simp
  then show ?thesis
    by (simp add: smoothed_bpm_process_frame recent_bpms_process_frame
        bpm_stability_process_frame engine_log_process_frame total_beats_process_frame)
       (simp add: SILENCE_THRESHOLD_def)
qed

text \<open>The silent frame of the example leaves a smoothed tempo of 120 alone.\<close>

theorem C3_silence_skip_witness:
  "max_amplitude silent_frame < SILENCE_THRESHOLD
   \<and> smoothed_bpm (process_frame steady_engine (fresh\<lparr>smoothed_bpm := 120\<rparr>) silent_frame) = 120
   \<and> engine_log (process_frame steady_engine (fresh\<lparr>smoothed_bpm := 120\<rparr>) silent_frame) = []"
proof -
  have h: "\<forall>s \<in> set silent_frame. \<bar>s\<bar> < 5368709 / 536870912"
    by (simp add: silent_frame_def)
  show ?thesis
    using C3_silence_skip [OF h, of steady_engine "fresh\<lparr>smoothed_bpm := 120\<rparr>"]
    by (simp add: fresh_fields max_amplitude_silent_frame SILENCE_THRESHOLD_def)
qed

text \<open>
  Claim C3 as stated says that every frame whose peak is strictly below 0.01 is skipped.
  The frame whose 64 samples are all \<^verbatim>\<open>0.01f\<close> has a peak strictly below 0.01, and it is
  not below the threshold of line 443: it is handed to aubio, the smoothed tempo leaves
  0, and the beat enters the history and the stability window.
\<close>

theorem C3_threshold_frame_processed:
  "max_amplitude threshold_frame = 5368709 / 536870912
   \<and> max_amplitude threshold_frame < 1 / 100
   \<and> \<not> max_amplitude threshold_frame < SILENCE_THRESHOLD
   \<and> smoothed_bpm fresh = 0
   \<and> smoothed_bpm (process_frame steady_engine fresh threshold_frame) \<noteq> 0
   \<and> engine_log fresh = []
   \<and> map ec_frame (engine_log (process_frame steady_engine fresh threshold_frame)) =
       [threshold_frame]
   \<and> length (recent_bpms fresh) = 0
   \<and> length (recent_bpms (process_frame steady_engine fresh threshold_frame)) = 1
   \<and> length (bpm_stability fresh) = 0
   \<and> length (bpm_stability (process_frame steady_engine fresh threshold_frame)) = 1"
proof -
  have m: "max_amplitude threshold_frame = 5368709 / 536870912"
    by (simp add: threshold_frame_def max_amplitude_replicate)
  have n: "\<not> max_amplitude threshold_frame < SILENCE_THRESHOLD"
    by (simp add: m SILENCE_THRESHOLD_def)
  have b: "is_beat (analysis_of steady_engine fresh threshold_frame)"
    by (simp add: analysis_of_def is_beat_steady)
  have a: "ar_bpm (analysis_of steady_engine fresh threshold_frame) = 128"
    by (simp add: analysis_of_def steady_engine_def)
  have s: "smooth_bpm 0 128 = 192 / 5"
    by (simp add: smooth_bpm_def BPM_MIN_def BPM_MAX_def)
  show ?thesis
    using n b
    by (simp add: m a s fresh_fields smoothed_bpm_process_frame engine_log_process_frame
        recent_bpms_process_frame bpm_stability_process_frame push_bounded_def
        BPM_HISTORY_SIZE_def STABILITY_WINDOW_def)
qed

subsection \<open>C4\<close>

text \<open>
  Claim C4. From a state with an empty accumulator, the chunks of any sequence produce
  exactly total div size frames; the \<open>i\<close>-th frame is the \<open>i\<close>-th run of size
  consecutive samples of the input; the total mod size samples that remain are held in
  the accumulator, and the frames put end to end, followed by them, are the input. When
  the total is a multiple of the frame size nothing is left: there are total / size
  frames, no sample is dropped, duplicated or moved. The run never writes outside the
  accumulator.
\<close>

theorem C4_frame_accumulator:
  assumes "well_formed d" and "accumulated_samples d = 0" and "\<not> should_quit d"
  shows "\<exists>d'. run E d (map Some chunks) = Some d'
           \<and> frames_done d' =
               frames_done d @
                 map (frame_slice (buf_size d) (concat chunks))
                   [0..<length (concat chunks) div buf_size d]
           \<and> length (drop (length (frames_done d)) (frames_done d')) =
               length (concat chunks) div buf_size d
           \<and> accumulated_samples d' = length (concat chunks) mod buf_size d
           \<and> concat (drop (length (frames_done d)) (frames_done d')) @ pending d' =
               concat chunks"
proof -
  let ?n = "buf_size d" and ?ys = "concat chunks"
  have p: "pending d = []"
    using assms(2) by (simp add: pending_def)
  from accumulate_frames [OF \<open>well_formed d\<close>, of E ?ys] p obtain d' where d':
    "accumulate E d ?ys = Some d'" "well_formed d'"
    "frames_done d' = frames_done d @ map (frame_slice ?n ?ys) [0..<length ?ys div ?n]"
    "pending d' = drop (length ?ys div ?n * ?n) ?ys"
    by auto
  have "length (pending d') = length ?ys - length ?ys div ?n * ?n"
    using d'(4) by simp
  also have "\<dots> = length ?ys mod ?n"
    by (simp add: minus_div_mult_eq_mod)
  finally have "accumulated_samples d' = length ?ys mod ?n"
    using \<open>well_formed d'\<close> by (simp add: length_pending)
  moreover have "concat (map (frame_slice ?n ?ys) [0..<length ?ys div ?n]) @ pending d' = ?ys"
    by (simp add: concat_slices d'(4))
  ultimately show ?thesis
    using d' run_chunks [OF assms(1) assms(3), of E chunks] by simp
qed

text \<open>
  Three chunks of 100, 0 and 28 samples at frame size 64: the first gives one frame and
  holds 36 samples, the second gives none, the third completes the second frame.
\<close>

theorem C4_frame_accumulator_witness:
  "\<exists>d'. run steady_engine fresh
           (map Some [replicate 100 (1 / 2), [], replicate 28 (1 / 500)]) = Some d'
     \<and> frames_done d' = [replicate 64 (1 / 2), replicate 36 (1 / 2) @ replicate 28 (1 / 500)]
     \<and> accumulated_samples d' = 0"
proof -
  have u: "[0..<2] = [0, Suc 0]"
    by (simp add: upt_rec numeral_2_eq_2)
  show ?thesis
    using C4_frame_accumulator [OF well_formed_fresh, of steady_engine
        "[replicate 100 (1 / 2), [], replicate 28 (1 / 500)]"]
    by (simp add: fresh_fields frame_slice_def u) blast
qed

subsection \<open>C5\<close>

text \<open>
  Claim C5. From a state whose tempo history holds at most 20 values and whose stability
  window holds at most 5, any sequence of callbacks ends in such a state. An insertion
  appends the smoothed tempo; when the history was full it drops exactly the oldest
  value, and nothing otherwise. After any insertions into an empty history, the history
  is the last 20 (the window: the last 5) of the values inserted, in their order.
\<close>

theorem C5_bounded_histories:
  assumes "well_formed d"
      and "length (recent_bpms d) \<le> 20" and "length (bpm_stability d) \<le> 5"
  shows "(\<exists>d'. run E d inps = Some d'
            \<and> length (recent_bpms d') \<le> 20 \<and> length (bpm_stability d') \<le> 5)
       \<and> recent_bpms (beat_branch d c p a) =
           (if length (recent_bpms d) < 20 then recent_bpms d @ [smoothed_bpm d]
            else tl (recent_bpms d) @ [smoothed_bpm d])
       \<and> bpm_stability (beat_branch d c p a) =
           (if length (bpm_stability d) < 5 then bpm_stability d @ [smoothed_bpm d]
            else tl (bpm_stability d) @ [smoothed_bpm d])
       \<and> foldl (\<lambda>h v. push_bounded BPM_HISTORY_SIZE v h) [] vs = drop (length vs - 20) vs
       \<and> foldl (\<lambda>h v. push_bounded STABILITY_WINDOW v h) [] vs = drop (length vs - 5) vs"
proof -
  have f: "foldl (\<lambda>h v. push_bounded BPM_HISTORY_SIZE v h) [] vs = drop (length vs - 20) vs"
    "foldl (\<lambda>h v. push_bounded STABILITY_WINDOW v h) [] vs = drop (length vs - 5) vs"
    using pushes_drop [of "[]" BPM_HISTORY_SIZE vs] pushes_drop [of "[]" STABILITY_WINDOW vs]
    by (simp_all add: BPM_HISTORY_SIZE_def STABILITY_WINDOW_def)
  have b: "bounded_histories d"
    using assms(2,3) by (simp add: bounded_histories_def BPM_HISTORY_SIZE_def STABILITY_WINDOW_def)
  from run_total [OF assms(1), of E inps] obtain d' where d': "run E d inps = Some d'"
    by blast
  from bounded_run [OF b d'] have "length (recent_bpms d') \<le> 20 \<and> length (bpm_stability d') \<le> 5"
    by (simp add: bounded_histories_def BPM_HISTORY_SIZE_def STABILITY_WINDOW_def)
  with d' show ?thesis
    using assms(2,3) f
    by (simp add: recent_bpms_beat_branch bpm_stability_beat_branch push_bounded_eq
        BPM_HISTORY_SIZE_def STABILITY_WINDOW_def)
qed

text \<open>
  A full stability window loses its oldest value, 100, to the new one; seven insertions
  into an empty window leave the last five.
\<close>

theorem C5_bounded_histories_witness:
  "(\<exists>d'. run steady_engine
            (fresh\<lparr>bpm_stability := [100, 101, 102, 103, 104], smoothed_bpm := 120\<rparr>)
            [Some loud_frame] = Some d'
        \<and> length (recent_bpms d') \<le> 20 \<and> length (bpm_stability d') \<le> 5)
   \<and> recent_bpms
        (beat_branch (fresh\<lparr>bpm_stability := [100, 101, 102, 103, 104], smoothed_bpm := 120\<rparr>)
           (4 / 5) 0 (1 / 2)) = [120]
   \<and> bpm_stability
        (beat_branch (fresh\<lparr>bpm_stability := [100, 101, 102, 103, 104], smoothed_bpm := 120\<rparr>)
           (4 / 5) 0 (1 / 2)) = [101, 102, 103, 104, 120]
   \<and> foldl (\<lambda>h v. push_bounded STABILITY_WINDOW v h) [] [1, 2, 3, 4, 5, 6, 7] = [3, 4, 5, 6, 7]"
proof -
  let ?d = "fresh\<lparr>bpm_stability := [100, 101, 102, 103, 104], smoothed_bpm := 120\<rparr>"
  have h: "well_formed ?d"
    by (simp add: well_formed_def fresh_fields)
  show ?thesis
    using C5_bounded_histories [OF h, of steady_engine "[Some loud_frame]" "4 / 5" 0 "1 / 2"
        "[1, 2, 3, 4, 5, 6, 7]"]
    by (simp add: fresh_fields)
qed

subsection \<open>C6\<close>

text \<open>
  Claim C6. On a window that is not empty, \<^verbatim>\<open>get_bpm_variance\<close> is the population
  standard deviation: the square root of the mean of the squared distances to the mean,
  the divisor being the number of values. On the empty window it is 999. On five equal
  values, such as five times 100, it is 0.
\<close>

theorem C6_variance:
  assumes "w \<noteq> []"
  shows "get_bpm_variance w =
           sqrt ((\<Sum>x\<leftarrow>w. (x - sum_list w / real (length w))\<^sup>2) / real (length w))
       \<and> get_bpm_variance w = population_stddev w
       \<and> get_bpm_variance [] = 999
       \<and> get_bpm_variance [100, 100, 100, 100, 100] = 0
       \<and> get_bpm_variance (replicate 5 c) = 0"
proof -
  have r: "get_bpm_variance (replicate 5 a) = 0" for a
    using get_bpm_variance_nonempty [of "replicate 5 a"] population_stddev_replicate [of 5 a]
    by simp
  have "get_bpm_variance [100, 100, 100, 100, 100] = 0"
    using r [of 100] by (simp add: numeral_eq_Suc)
  moreover note r [of c]
  moreover have "get_bpm_variance [] = 999"
    by (simp add: get_bpm_variance_def)
  ultimately show ?thesis
    using get_bpm_variance_nonempty [OF assms]
    by (simp add: population_stddev_def mean_def)
qed

text \<open>The window 95, 100, 105, 100, 100 of the specification has deviation \<open>\<surd>10\<close>.\<close>

theorem C6_variance_witness:
  "get_bpm_variance [95, 100, 105, 100, 100] = sqrt 10"
  using C6_variance [of "[95, 100, 105, 100, 100]"]
  by simp

subsection \<open>C7\<close>

text \<open>
  Claim C7, as the code has it. A sample that does not complete a frame changes neither
  counter. Every full frame, skipped for silence or not, increments \<^verbatim>\<open>frame_count_\<close>
  exactly once (line 440 comes before the silence test). The onset counter
  \<^verbatim>\<open>total_onsets_\<close> is incremented exactly once on every frame that passes the test,
  whether or not the frame is accepted as a beat, and not at all on a skipped frame.
\<close>

theorem C7_counters:
  assumes "well_formed d"
  shows "(\<exists>d'. feed E d x = Some d'
           \<and> frame_count d' =
               frame_count d + (if Suc (accumulated_samples d) < buf_size d then 0 else 1)
           \<and> total_onsets d' =
               total_onsets d +
                 (if Suc (accumulated_samples d) < buf_size d
                     \<or> max_amplitude (pending d @ [x]) < SILENCE_THRESHOLD
                  then 0 else 1))
       \<and> frame_count (process_frame E s frame) = frame_count s + 1
       \<and> total_onsets (process_frame E s frame) =
           total_onsets s + (if max_amplitude frame < SILENCE_THRESHOLD then 0 else 1)"
  using assms
  by (simp add: feed_well_formed frame_count_process_frame total_onsets_process_frame)

text \<open>The sample that completes a loud frame, and the silent frame.\<close>

theorem C7_counters_witness:
  "(\<exists>d'. feed steady_engine
           (fresh\<lparr>sample_accumulator := replicate 64 (1 / 2), accumulated_samples := 63\<rparr>) (1 / 2)
         = Some d'
       \<and> frame_count d' = 1 \<and> total_onsets d' = 1)
   \<and> frame_count (process_frame steady_engine fresh silent_frame) = 1
   \<and> total_onsets (process_frame steady_engine fresh silent_frame) = 0"
proof -
  let ?d = "fresh\<lparr>sample_accumulator := replicate 64 (1 / 2), accumulated_samples := 63\<rparr>"
  have h: "well_formed ?d"
    by (simp add: well_formed_def fresh_fields)
  have "pending ?d = replicate 63 (1 / 2)"
    by (simp add: pending_def)
  then have "max_amplitude (pending ?d @ [1 / 2]) = 1 / 2"
    by (simp add: max_amplitude_snoc max_amplitude_replicate)
  then show ?thesis
    using C7_counters [OF h, of steady_engine "1 / 2" fresh silent_frame]
    by (simp add: fresh_fields SILENCE_THRESHOLD_def max_amplitude_silent_frame)
qed

text \<open>
  Claim C7 as stated says that a frame skipped for silence increments neither counter.
  The silent frame of the example is skipped, and the frame counter goes from 0 to 1.
\<close>

theorem C7_silent_frame_counted:
  "max_amplitude silent_frame < SILENCE_THRESHOLD
   \<and> frame_count fresh = 0
   \<and> frame_count (process_frame steady_engine fresh silent_frame) = 1
   \<and> total_onsets (process_frame steady_engine fresh silent_frame) = 0"
  by (simp add: max_amplitude_silent_frame SILENCE_THRESHOLD_def frame_count_process_frame
      total_onsets_process_frame fresh_fields)

subsection \<open>C8\<close>




subsection \<open>C9\<close>

text \<open>
  Claim C9, as the code has it. The arguments are read from left to right. After
  arguments that were all accepted, the first argument of one of these kinds ends the
  program, whatever follows it: \<^verbatim>\<open>--help\<close> or \<^verbatim>\<open>-h\<close> prints the usage text and exits
  with 0; an unknown option prints the usage text and exits with 1; a positional argument
  that \<^verbatim>\<open>std::stoul\<close> rejects, or whose number is below \<open>2^32\<close> and outside 64 to
  8192, exits with 1 and prints an error line but not the usage text. The third part of
  the statement gives the lines printed in each case.
\<close>

theorem C9_command_line:
  assumes "parse_args opts pre = Start opts'"
      and "arg_kind arg \<in> {Help, Unknown_flag, Unparsable, Size_out_of_range}"
  shows "exit_code (parse_args opts (pre @ arg # post)) =
           Some (if arg_kind arg = Help then 0 else 1)
       \<and> usage_shown (parse_args opts (pre @ arg # post)) =
           (arg_kind arg = Help \<or> arg_kind arg = Unknown_flag)
       \<and> messages (parse_args opts (pre @ arg # post)) =
           (if arg_kind arg = Help then [Usage]
            else if arg_kind arg = Unknown_flag then [Err_unknown arg, Usage]
            else if arg_kind arg = Unparsable then [Err_invalid arg]
            else [Err_range])"
proof -
  have "parse_args opts (pre @ arg # post) = parse_args opts' (arg # post)"
    using assms(1) by (rule parse_args_append)
  moreover have "exit_code (parse_args opts' (arg # post)) =
           Some (if arg_kind arg = Help then 0 else 1)
       \<and> usage_shown (parse_args opts' (arg # post)) =
           (arg_kind arg = Help \<or> arg_kind arg = Unknown_flag)"
    using assms(2)
    by (auto simp: arg_kind_def exit_code_def usage_shown_def Let_def ucast_small not_le
        split: if_splits sum.splits)
  moreover have "messages (parse_args opts' (arg # post)) =
           (if arg_kind arg = Help then [Usage]
            else if arg_kind arg = Unknown_flag then [Err_unknown arg, Usage]
            else if arg_kind arg = Unparsable then [Err_invalid arg]
            else [Err_range])"
    using assms(2)
    by (auto simp: arg_kind_def messages_def Let_def ucast_small not_le
        split: if_splits sum.splits)
  ultimately show ?thesis by simp
qed

text \<open>After \<^verbatim>\<open>--pitch 256\<close>: a size of 5, \<^verbatim>\<open>--help\<close>, an unknown option, a word.\<close>

theorem C9_command_line_witness:
  "exit_code (parse_args default_options ([''--pitch'', ''256''] @ ''5'' # [''--help''])) = Some 1
   \<and> usage_shown (parse_args default_options ([''--pitch'', ''256''] @ ''5'' # [''--help''])) = False
   \<and> exit_code (parse_args default_options ([''--pitch'', ''256''] @ ''--help'' # [''5''])) = Some 0
   \<and> usage_shown (parse_args default_options ([''--pitch'', ''256''] @ ''--help'' # [''5''])) = True
   \<and> exit_code (parse_args default_options ([''--pitch'', ''256''] @ ''--fast'' # [])) = Some 1
   \<and> usage_shown (parse_args default_options ([''--pitch'', ''256''] @ ''--fast'' # [])) = True
   \<and> exit_code (parse_args default_options ([''--pitch'', ''256''] @ ''loud'' # [])) = Some 1
   \<and> usage_shown (parse_args default_options ([''--pitch'', ''256''] @ ''loud'' # [])) = False
   \<and> messages (parse_args default_options ([''--pitch'', ''256''] @ ''5'' # [''--help''])) =
       [Err_range]
   \<and> messages (parse_args default_options ([''--pitch'', ''256''] @ ''loud'' # [])) =
       [Err_invalid ''loud'']"
proof -
  have h: "parse_args default_options [''--pitch'', ''256''] =
             Start (default_options\<lparr>opt_pitch_detection := True, buffer_size := 256\<rparr>)"
    by (simp add: first_char_def stoul_256 Let_def default_options_def)
  show ?thesis
    using C9_command_line [OF h, of "''5''" "[''--help'']"]
      C9_command_line [OF h, of "''--help''" "[''5'']"]
      C9_command_line [OF h, of "''--fast''" "[]"]
      C9_command_line [OF h, of "''loud''" "[]"]
    unfolding arg_kind_examples by simp
qed

text \<open>
  Claim C9 as stated says that a size outside 64 to 8192 gives exit code 1 with a usage
  message, and that \<^verbatim>\<open>--help\<close> gives exit code 0. A size of 5 exits with 1 after the
  error line alone; followed by \<^verbatim>\<open>--help\<close> it still exits with 1; preceded by
  \<^verbatim>\<open>--help\<close> it is never read and the exit code is 0.
\<close>

theorem C9_size_without_usage:
  "main_args [''beat_detector'', ''5''] = Exit 1 [Err_range]
   \<and> \<not> usage_shown (main_args [''beat_detector'', ''5''])
   \<and> main_args [''beat_detector'', ''5'', ''--help''] = Exit 1 [Err_range]
   \<and> main_args [''beat_detector'', ''--help'', ''5''] = Exit 0 [Usage]"
  by (simp add: main_args_def first_char_def stoul_5 Let_def usage_shown_def)

subsection \<open>C10\<close>

text \<open>
  Claim C10, as the code has it. On an accepted beat the smoothed tempo is appended to
  the stability window before \<^verbatim>\<open>get_bpm_variance\<close> is called, so the window then holds
  between 1 and 5 values, the last being the smoothed tempo, and the value computed,
  for the stability flag of the console line and for the log line, is the population
  standard deviation of that window and not the value of the empty window.
\<close>

theorem C10_variance_window:
  assumes "length (bpm_stability d) \<le> 5"
      and "\<not> max_amplitude frame < SILENCE_THRESHOLD"
      and "is_beat (analysis_of E d frame)"
  shows "bpm_stability (process_frame E d frame) \<noteq> []
       \<and> length (bpm_stability (process_frame E d frame)) \<le> 5
       \<and> last (bpm_stability (process_frame E d frame)) = smoothed_bpm (process_frame E d frame)
       \<and> get_bpm_variance (bpm_stability (process_frame E d frame)) =
           population_stddev (bpm_stability (process_frame E d frame))
       \<and> out_events (process_frame E d frame) =
           out_events d @
           (if (frame_count d + 1) mod 200 = 0
            then [Debug_msg (frame_count d + 1) (max_amplitude frame)
                    (smoothed_bpm (process_frame E d frame))
                    (ar_confidence (analysis_of E d frame)) True]
            else []) @
           (if enable_visual_feedback d
            then [Beat_visual (smoothed_bpm (process_frame E d frame))
                    (ar_confidence (analysis_of E d frame))
                    (get_average_bpm (recent_bpms (process_frame E d frame)))]
            else [Beat_console (smoothed_bpm (process_frame E d frame))
                    (ar_confidence (analysis_of E d frame))
                    (population_stddev (bpm_stability (process_frame E d frame)) < 5)]) @
           (if enable_logging d \<and> log_is_open d
            then [Log_line (smoothed_bpm (process_frame E d frame))
                    (ar_confidence (analysis_of E d frame))
                    (if enable_pitch_detection d then ar_pitch (analysis_of E d frame) else 0)
                    (max_amplitude frame)
                    (population_stddev (bpm_stability (process_frame E d frame)))]
            else [])"
proof -
  let ?d' = "process_frame E d frame"
  let ?sm = "smooth_bpm (smoothed_bpm d) (ar_bpm (analysis_of E d frame))"
  have w: "bpm_stability ?d' = push_bounded STABILITY_WINDOW ?sm (bpm_stability d)"
    using assms(2,3) by (simp add: bpm_stability_process_frame)
  have sm: "smoothed_bpm ?d' = ?sm"
    using assms(2) by (simp add: smoothed_bpm_process_frame)
  have ne: "bpm_stability ?d' \<noteq> []"
    unfolding w by (rule push_bounded_nonempty) (simp add: STABILITY_WINDOW_def)
  have le: "length (bpm_stability ?d') \<le> 5"
    using assms(1) length_push_bounded [of "bpm_stability d" STABILITY_WINDOW ?sm]
    by (simp add: w STABILITY_WINDOW_def)
  have la: "last (bpm_stability ?d') = smoothed_bpm ?d'"
    by (simp add: w sm last_push_bounded STABILITY_WINDOW_def)
  have va: "get_bpm_variance (bpm_stability ?d') = population_stddev (bpm_stability ?d')"
    using ne by (rule get_bpm_variance_nonempty)
  have ev: "out_events ?d' =
           out_events d @
           (if (frame_count d + 1) mod 200 = 0
            then [Debug_msg (frame_count d + 1) (max_amplitude frame) (smoothed_bpm ?d')
                    (ar_confidence (analysis_of E d frame)) True]
            else []) @
           (if enable_visual_feedback d
            then [Beat_visual (smoothed_bpm ?d') (ar_confidence (analysis_of E d frame))
                    (get_average_bpm (recent_bpms ?d'))]
            else [Beat_console (smoothed_bpm ?d') (ar_confidence (analysis_of E d frame))
                    (population_stddev (bpm_stability ?d') < 5)]) @
           (if enable_logging d \<and> log_is_open d
            then [Log_line (smoothed_bpm ?d') (ar_confidence (analysis_of E d frame))
                    (if enable_pitch_detection d then ar_pitch (analysis_of E d frame) else 0)
                    (max_amplitude frame) (population_stddev (bpm_stability ?d'))]
            else [])"
    unfolding va [symmetric] sm
    using assms(2,3) by (simp add: out_events_process_frame BPM_VARIANCE_LIMIT_def)
  from ne le la va ev show ?thesis by blast
qed

text \<open>The first beat of a session: a window of one value, deviation 0.\<close>

theorem C10_variance_window_witness:
  "bpm_stability (process_frame steady_engine fresh loud_frame) = [192 / 5]
   \<and> out_events (process_frame steady_engine fresh loud_frame) =
       [Beat_console (192 / 5) (4 / 5) True, Log_line (192 / 5) (4 / 5) 0 (1 / 2) 0]"
proof -
  have b: "is_beat (analysis_of steady_engine fresh loud_frame)"
    by (simp add: analysis_of_def is_beat_steady)
  have a: "ar_bpm (analysis_of steady_engine fresh loud_frame) = 128"
    "ar_confidence (analysis_of steady_engine fresh loud_frame) = 4 / 5"
    by (simp_all add: analysis_of_def steady_engine_def)
  have s: "smooth_bpm 0 128 = 192 / 5"
    by (simp add: smooth_bpm_def BPM_MIN_def BPM_MAX_def)
  have w: "bpm_stability (process_frame steady_engine fresh loud_frame) = [192 / 5]"
    by (simp add: bpm_stability_process_frame loud_not_silent b a s fresh_fields
        push_bounded_def STABILITY_WINDOW_def)
  have m: "smoothed_bpm (process_frame steady_engine fresh loud_frame) = 192 / 5"
    by (simp add: smoothed_bpm_process_frame loud_not_silent a s fresh_fields)
  have p: "population_stddev [192 / 5] = 0"
    by (simp add: population_stddev_def mean_def)
  show ?thesis
    using C10_variance_window [OF _ loud_not_silent b]
    by (simp add: fresh_fields w m a p max_amplitude_loud_frame)
qed

text \<open>
  Claim C10 as stated says that 999 never appears as the variance of an emitted beat.
  With a first tempo estimate of 6760, taken over as it is because no estimate exists
  yet, and a second of 100, the window holds 6760 and 4762, whose standard deviation is
  999: the log line of the second beat carries 999.
\<close>

theorem C10_variance_999:
  "map_option bpm_stability (run erratic_engine fresh [Some loud_frame, Some loud_frame]) =
     Some [6760, 4762]
   \<and> population_stddev [6760, 4762] = 999
   \<and> map_option out_events (run erratic_engine fresh [Some loud_frame, Some loud_frame]) =
     Some [Beat_console 6760 (4 / 5) True, Log_line 6760 (4 / 5) 0 (1 / 2) 0,
           Beat_console 4762 (4 / 5) False, Log_line 4762 (4 / 5) 0 (1 / 2) 999]"
proof -
  let ?d0 = "fresh\<lparr>sample_accumulator := loud_frame, accumulated_samples := 64\<rparr>"
  let ?d1 = "process_frame erratic_engine ?d0 loud_frame"
  let ?d1' = "?d1\<lparr>sample_accumulator := loud_frame, accumulated_samples := 64\<rparr>"
  let ?d2 = "process_frame erratic_engine ?d1' loud_frame"
  have r1: "process_audio erratic_engine fresh (Some loud_frame) = Some ?d1"
    using process_audio_whole_frame [OF well_formed_fresh, of loud_frame erratic_engine]
    by (simp add: fresh_fields length_loud_frame)
  have wf1: "well_formed ?d1"
    by (simp add: well_formed_def static_process_frame length_loud_frame fresh_fields)
  have r2: "process_audio erratic_engine ?d1 (Some loud_frame) = Some ?d2"
    using process_audio_whole_frame [OF wf1, of loud_frame erratic_engine]
    by (simp add: static_process_frame fresh_fields length_loud_frame)
  have run: "run erratic_engine fresh [Some loud_frame, Some loud_frame] = Some ?d2"
    by (simp add: r1 r2)
  have a1: "ar_bpm (analysis_of erratic_engine ?d0 loud_frame) = 6760"
    by (simp add: analysis_of_def erratic_engine_def fresh_fields)
  have a2: "ar_bpm (analysis_of erratic_engine ?d1' loud_frame) = 100"
    by (simp add: analysis_of_def erratic_engine_def fresh_fields engine_log_process_frame
        loud_not_silent)
  have c: "ar_confidence (analysis_of erratic_engine s loud_frame) = 4 / 5" for s
    by (simp add: analysis_of_def erratic_engine_def)
  have b: "is_beat (analysis_of erratic_engine s loud_frame)" for s
    by (simp add: analysis_of_def is_beat_erratic)
  have s1: "smoothed_bpm ?d1 = 6760"
    by (simp add: smoothed_bpm_process_frame loud_not_silent a1 fresh_fields smooth_bpm_def
        BPM_MIN_def BPM_MAX_def)
  have s2: "smooth_bpm 6760 100 = 4762"
    by (simp add: smooth_bpm_def BPM_MIN_def BPM_MAX_def)
  have w1: "bpm_stability ?d1 = [6760]"
    by (simp add: bpm_stability_process_frame loud_not_silent b a1 fresh_fields smooth_bpm_def
        BPM_MIN_def BPM_MAX_def push_bounded_def STABILITY_WINDOW_def)
  have w2: "bpm_stability ?d2 = [6760, 4762]"
    by (simp add: bpm_stability_process_frame [of _ ?d1'] loud_not_silent b a2 s1 s2 w1
        push_bounded_def STABILITY_WINDOW_def)
  have v1: "get_bpm_variance [6760] = 0"
    by (simp add: get_bpm_variance_def)
  have v2: "get_bpm_variance [6760, 4762] = 999"
    by (simp add: get_bpm_variance_def sqrt_998001)
  have e1: "out_events ?d1 = [Beat_console 6760 (4 / 5) True, Log_line 6760 (4 / 5) 0 (1 / 2) 0]"
    by (simp add: out_events_process_frame [of _ ?d0] loud_not_silent b c a1 w1 v1 fresh_fields
        smooth_bpm_def BPM_MIN_def BPM_MAX_def max_amplitude_loud_frame BPM_VARIANCE_LIMIT_def SILENCE_THRESHOLD_def)
  have f1: "frame_count ?d1 = 1" "enable_visual_feedback ?d1 = False"
    "enable_logging ?d1 = True" "log_is_open ?d1 = True" "enable_pitch_detection ?d1 = False"
    by (simp_all add: process_frame_def Let_def b static_beat_branch frame_count_beat_branch
        fresh_fields)
  have e2: "out_events ?d2 = [Beat_console 6760 (4 / 5) True, Log_line 6760 (4 / 5) 0 (1 / 2) 0,
           Beat_console 4762 (4 / 5) False, Log_line 4762 (4 / 5) 0 (1 / 2) 999]"
    by (simp add: out_events_process_frame [of _ ?d1'] loud_not_silent b c a2 s1 s2 w2 v2 e1 f1
        max_amplitude_loud_frame BPM_VARIANCE_LIMIT_def SILENCE_THRESHOLD_def)
  have "population_stddev [6760, 4762] = 999"
    using get_bpm_variance_nonempty [of "[6760, 4762]"] v2 by simp
  then show ?thesis
    unfolding run by (simp add: w2 e2)
qed

end
